theory Spec2Isabelle
  imports Complex_Main "HOL-Library.Sublist"
begin

text \<open>
  The functions of widdershins' \<open>common.js\<close> that flatten a schema into rows and
  synthesize example values: \<open>inferType\<close>, \<open>strim\<close>, \<open>clean\<close>, \<open>getSample\<close> and
  \<open>schemaToArray\<close>. The definitions come first, one section per function; the
  properties follow.
\<close>

section \<open>JSON values as the JavaScript code reads them\<close>

text \<open>
  Schemas, samples and the API document are JSON trees. An object is an association
  list in key order (the order \<open>for ... in\<close> enumerates it in), with \<open>get\<close> reading the
  first binding of a key. A property that is missing reads as JavaScript's
  \<open>undefined\<close>, which is \<open>None\<close> throughout; \<open>null\<close> is the value \<open>JNull\<close>.
\<close>

datatype json =
    JNull
  | JBool bool
  | JNum rat
  | JStr string
  | JArr "json list"
  | JObj "(string \<times> json) list"

datatype error = TypeError

text \<open>\<open>v[k]\<close> for a keyword \<open>k\<close>: only objects carry schema keywords.\<close>

fun get :: "json \<Rightarrow> string \<Rightarrow> json option" where
  "get (JObj kvs) k = map_of kvs k"
| "get _ k = None"

text \<open>JavaScript truthiness: \<open>false\<close>, \<open>0\<close>, \<open>''\<close>, \<open>null\<close> and \<open>undefined\<close> are falsy.\<close>

fun js_truthy :: "json \<Rightarrow> bool" where
  "js_truthy JNull = False"
| "js_truthy (JBool b) = b"
| "js_truthy (JNum n) = (n \<noteq> 0)"
| "js_truthy (JStr s) = (s \<noteq> [])"
| "js_truthy (JArr xs) = True"
| "js_truthy (JObj kvs) = True"

fun truthy :: "json option \<Rightarrow> bool" where
  "truthy None = False"
| "truthy (Some v) = js_truthy v"

fun js_typeof :: "json \<Rightarrow> string" where
  "js_typeof JNull = ''object''"
| "js_typeof (JBool b) = ''boolean''"
| "js_typeof (JNum n) = ''number''"
| "js_typeof (JStr s) = ''string''"
| "js_typeof (JArr xs) = ''object''"
| "js_typeof (JObj kvs) = ''object''"

section \<open>inferType\<close>

text \<open>
  The inner helper \<open>has\<close>: some listed property of the schema is not \<open>undefined\<close>.
\<close>

definition has :: "json \<Rightarrow> string list \<Rightarrow> bool" where
  "has schema properties = list_ex (\<lambda>property. get schema property \<noteq> None) properties"

text \<open>
  \<open>for (let value of schema.enum)\<close> runs only when \<open>schema.enum\<close> is truthy. An array
  yields its elements and a string its characters; any other truthy value is not
  iterable and the loop raises a TypeError.
\<close>

fun iterate :: "json \<Rightarrow> error + json list" where
  "iterate (JArr xs) = Inr xs"
| "iterate (JStr s) = Inr (map (\<lambda>c. JStr [c]) s)"
| "iterate _ = Inl TypeError"

definition possibleTypes :: "json \<Rightarrow> error + string list" where
  "possibleTypes schema =
    (let keyword_groups =
       (if has schema [''properties'', ''additionalProperties'', ''patternProperties'',
                       ''minProperties'', ''maxProperties'', ''required'', ''dependencies'']
        then [''object''] else []) @
       (if has schema [''items'', ''additionalItems'', ''maxItems'', ''minItems'', ''uniqueItems'']
        then [''array''] else []) @
       (if has schema [''exclusiveMaximum'', ''exclusiveMinimum'', ''maximum'', ''minimum'',
                       ''multipleOf'']
        then [''number''] else []) @
       (if has schema [''maxLength'', ''minLength'', ''pattern'']
        then [''number''] else [])
     in case get schema ''enum'' of
          None \<Rightarrow> Inr keyword_groups
        | Some e \<Rightarrow>
            if js_truthy e
            then (case iterate e of
                    Inl err \<Rightarrow> Inl err
                  | Inr vals \<Rightarrow> Inr (keyword_groups @ map js_typeof vals))
            else Inr keyword_groups)"

definition inferType :: "json \<Rightarrow> error + json" where
  "inferType schema =
    (if truthy (get schema ''type'')
     then (case get schema ''type'' of Some t \<Rightarrow> Inr t | None \<Rightarrow> Inr (JStr ''any''))
     else case possibleTypes schema of
            Inl err \<Rightarrow> Inl err
          | Inr [t] \<Rightarrow> Inr (JStr t)
          | Inr _ \<Rightarrow> Inr (JStr ''any''))"

section \<open>strim and clean\<close>

text \<open>
  Modelled from the spec: the traversal helpers \<open>recurse\<close> and \<open>visit\<close> come from the
  reftools package and are not among the sources. \<open>recurse(obj, {}, callback)\<close> walks
  the value in pre-order and calls \<open>callback(object, key, state)\<close> for every own key of
  every nested array or object, where \<open>state.depth\<close> is the depth of \<open>object\<close> (0 at
  the root), \<open>state.parent\<close> the container holding \<open>object\<close> and \<open>state.pkey\<close> its key
  there; at the root \<open>state.parent\<close> is a fresh empty object.

  The callback of \<open>strim\<close> overwrites \<open>state.parent[state.pkey]\<close>, that is \<open>object\<close>
  itself, with \<open>[]\<close> or \<open>{}\<close> once \<open>state.depth >= maxDepth\<close>. It runs once per key,
  so a container without keys is never overwritten, and at the root there is nothing
  to overwrite. \<open>recurse_strim maxDepth depth v\<close> is what is left in the place of a
  value \<open>v\<close> found at \<open>depth\<close>.
\<close>

fun recurse_strim :: "int \<Rightarrow> nat \<Rightarrow> json \<Rightarrow> json" where
  "recurse_strim maxDepth depth (JArr xs) =
     (if xs \<noteq> [] \<and> 0 < depth \<and> maxDepth \<le> int depth then JArr []
      else JArr (map (recurse_strim maxDepth (Suc depth)) xs))"
| "recurse_strim maxDepth depth (JObj kvs) =
     (if kvs \<noteq> [] \<and> 0 < depth \<and> maxDepth \<le> int depth then JObj []
      else JObj (map (\<lambda>(k, v). (k, recurse_strim maxDepth (Suc depth) v)) kvs))"
| "recurse_strim maxDepth depth v = v"

text \<open>
  \<open>options.maxDepth\<close> may be missing. Every comparison with \<open>undefined\<close> is false, so
  neither the early return nor the callback's test fires and the value comes back as
  it was.
\<close>

definition strim :: "json \<Rightarrow> int option \<Rightarrow> json" where
  "strim obj maxDepth =
     (case maxDepth of
        None \<Rightarrow> obj
      | Some m \<Rightarrow> if m \<le> 0 then obj else recurse_strim m 0 obj)"

text \<open>
  The depth limit in the words of the specification: arrays and objects at or beyond
  the maximum depth are replaced with their empty equivalents, everything above is
  kept.
\<close>

fun depth_limit :: "int \<Rightarrow> nat \<Rightarrow> json \<Rightarrow> json" where
  "depth_limit maxDepth depth (JArr xs) =
     (if maxDepth \<le> int depth then JArr []
      else JArr (map (depth_limit maxDepth (Suc depth)) xs))"
| "depth_limit maxDepth depth (JObj kvs) =
     (if maxDepth \<le> int depth then JObj []
      else JObj (map (\<lambda>(k, v). (k, depth_limit maxDepth (Suc depth) v)) kvs))"
| "depth_limit maxDepth depth v = v"

text \<open>
  Modelled from the spec: \<open>visit\<close> (reftools) is not among the sources. With the filter
  that \<open>clean\<close> gives it, it strips the marker keys recursively: every key that starts
  with \<open>x-widdershins\<close> is deleted from every nested object, and the walk goes on below
  the keys that remain. \<open>clean(undefined)\<close> is \<open>{}\<close>.
\<close>

fun clean_walk :: "json \<Rightarrow> json" where
  "clean_walk (JObj kvs) =
     JObj (map (\<lambda>(k, v). (k, clean_walk v))
            (filter (\<lambda>(k, v). \<not> prefix ''x-widdershins'' k) kvs))"
| "clean_walk (JArr xs) = JArr (map clean_walk xs)"
| "clean_walk v = v"

fun clean :: "json option \<Rightarrow> json" where
  "clean None = JObj []"
| "clean (Some obj) = clean_walk obj"

section \<open>getSample\<close>

text \<open>
  The sample generator (openapi-sampler) is external. \<open>samplerOptions\<close> and the API
  document are only handed on to it, so they are part of the parameter \<open>sampler\<close>. It
  is called at four places, each at most once per run of \<open>getSampleInner\<close>; the
  parameter takes the place of the call, so nothing is assumed about two calls agreeing.
  A call throws (\<open>Inl\<close> of the exception's message), returns \<open>undefined\<close> (\<open>Inr None\<close>) or
  returns a value.
\<close>

datatype call = First | Retry_ref | Envelope | Retry_catch

type_synonym sampler = "call \<Rightarrow> json \<Rightarrow> string + json option"

record options =
  sample :: bool
  verbose :: bool
  maxDepth :: "int option"

text \<open>
  What one conversion run accumulates: the error memo \<open>options.samplerErrors\<close> (a
  missing memo behaves as the empty one it is replaced by) and the diagnostics written.
\<close>

datatype diag = Stderr string | Console_error string | Console_error_ex string | Console_warn string

record session =
  samplerErrors :: "string list"
  diagnostics :: "diag list"

definition report :: "(string \<Rightarrow> diag) \<Rightarrow> string \<Rightarrow> session \<Rightarrow> session" where
  "report full message s =
     (if message \<in> set (samplerErrors s)
      then s\<lparr>diagnostics := diagnostics s @ [Stderr ''.'']\<rparr>
      else s\<lparr>diagnostics := diagnostics s @ [full message],
             samplerErrors := samplerErrors s @ [message]\<rparr>)"

text \<open>\<open>Object.keys(sample).length\<close> for a sample that is not \<open>null\<close>.\<close>

fun own_keys :: "json \<Rightarrow> nat" where
  "own_keys (JStr s) = length s"
| "own_keys (JArr xs) = length xs"
| "own_keys (JObj kvs) = length kvs"
| "own_keys _ = 0"

datatype 'a attempt = Return 'a | Fallthrough | Throw string

text \<open>The message of the TypeError raised by reading \<open>.anonymous\<close> of \<open>undefined\<close> or \<open>null\<close>.\<close>

definition anonymous_message :: "json option \<Rightarrow> string" where
  "anonymous_message v =
     (case v of
        None \<Rightarrow> ''Cannot read properties of undefined''
      | Some _ \<Rightarrow> ''Cannot read properties of null'')"

text \<open>
  The body of the outer \<open>try\<close>. On a tree both clones, \<open>circularClone(orig)\<close> and the
  JSON round trip, equal \<open>orig\<close>, so \<open>obj\<close> stands for either. Reading \<open>.anonymous\<close> of
  an envelope sample that is \<open>undefined\<close> or \<open>null\<close> raises a TypeError inside the
  \<open>try\<close>.
\<close>

definition try_sample :: "sampler \<Rightarrow> json \<Rightarrow> json option attempt" where
  "try_sample sampler obj =
     (case sampler First obj of
        Inl message \<Rightarrow> Throw message
      | Inr sample0 \<Rightarrow>
          (case (if truthy sample0 \<and> (case sample0 of Some s \<Rightarrow> get s ''$ref'' \<noteq> None | None \<Rightarrow> False)
                 then sampler Retry_ref obj else Inr sample0) of
             Inl message \<Rightarrow> Throw message
           | Inr None \<Rightarrow> Fallthrough
           | Inr (Some smp) \<Rightarrow>
               if smp \<noteq> JNull \<and> own_keys smp \<noteq> 0 then Return (Some smp)
               else (case sampler Envelope
                            (JObj [(''type'', JStr ''object''),
                                   (''properties'', JObj [(''anonymous'', obj)])]) of
                       Inl message \<Rightarrow> Throw message
                     | Inr None \<Rightarrow> Throw (anonymous_message None)
                     | Inr (Some JNull) \<Rightarrow> Throw (anonymous_message (Some JNull))
                     | Inr (Some env) \<Rightarrow> Return (get env ''anonymous''))))"

text \<open>The \<open>catch\<close> handler of the outer \<open>try\<close>, with its own inner \<open>try\<close>.\<close>

definition catch_sample ::
  "sampler \<Rightarrow> json \<Rightarrow> options \<Rightarrow> string \<Rightarrow> session \<Rightarrow> json option \<times> session" where
  "catch_sample sampler obj opts message s =
     (let s1 = report (\<lambda>m. Console_error (''# sampler '' @ m)) message s;
          s2 = (if verbose opts then s1\<lparr>diagnostics := diagnostics s1 @ [Console_error_ex message]\<rparr>
                else s1)
      in case sampler Retry_catch obj of
           Inr (Some smp) \<Rightarrow> (Some smp, s2)
         | Inr None \<Rightarrow> (Some obj, s2)
         | Inl message2 \<Rightarrow>
             (Some obj, report (\<lambda>m. Console_warn (''# sampler 2nd error '' @ m)) message2 s2))"

text \<open>
  \<open>getSampleInner\<close> and \<open>getSample\<close> return \<open>Inr\<close> of the value (\<open>None\<close> for
  \<open>undefined\<close>), or \<open>Inl\<close> of the message of an exception that leaves the function.
\<close>

definition getSampleInner ::
  "sampler \<Rightarrow> json option \<Rightarrow> options \<Rightarrow> session \<Rightarrow> (string + json option) \<times> session" where
  "getSampleInner sampler orig opts s =
     (case orig of
        None \<Rightarrow> (Inr None, s)
      | Some obj \<Rightarrow>
          if sample opts \<and> js_truthy obj
          then (case try_sample sampler obj of
                  Return smp \<Rightarrow> (Inr smp, s)
                | Fallthrough \<Rightarrow> (Inr (Some obj), s)
                | Throw message \<Rightarrow>
                    (case catch_sample sampler obj opts message s of
                       (r, s') \<Rightarrow> (Inr r, s')))
          else (Inr (Some obj), s))"

definition getSample ::
  "sampler \<Rightarrow> json option \<Rightarrow> options \<Rightarrow> session \<Rightarrow> (string + json option) \<times> session" where
  "getSample sampler orig opts s =
     (let synthesized =
            (case getSampleInner sampler orig opts s of
               (Inl message, s') \<Rightarrow> (Inl message, s')
             | (Inr result, s') \<Rightarrow> (Inr (Some (strim (clean result) (maxDepth opts))), s'))
      in case orig of
           None \<Rightarrow> synthesized
         | Some node \<Rightarrow>
             if js_truthy node \<and> truthy (get node ''example'')
             then (Inr (get node ''example''), s)
             else synthesized)"

section \<open>schemaToArray\<close>

subsection \<open>Strings\<close>

text \<open>\<open>s.split(sep)\<close> for a one-character separator: never empty, \<open>''.split('/')\<close> is \<open>['']\<close>.\<close>

fun split :: "char \<Rightarrow> string \<Rightarrow> string list" where
  "split sep [] = [[]]"
| "split sep (c # cs) =
     (if c = sep then [] # split sep cs
      else (case split sep cs of w # ws \<Rightarrow> (c # w) # ws | [] \<Rightarrow> [[c]]))"

text \<open>\<open>xs[i]\<close>: out of range the read gives \<open>undefined\<close>.\<close>

definition elem_at :: "'a list \<Rightarrow> nat \<Rightarrow> 'a option" where
  "elem_at xs i = (if i < length xs then Some (xs ! i) else None)"

text \<open>\<open>s.replace(pattern, replacement)\<close> for a string pattern: the first occurrence only.\<close>

fun replace :: "string \<Rightarrow> string \<Rightarrow> string \<Rightarrow> string" where
  "replace pattern replacement [] = (if pattern = [] then replacement else [])"
| "replace pattern replacement (c # cs) =
     (if prefix pattern (c # cs) then replacement @ drop (length pattern) (c # cs)
      else c # replace pattern replacement cs)"

definition startsWith :: "string \<Rightarrow> string \<Rightarrow> bool" where
  "startsWith s p = prefix p s"

subsection \<open>Data\<close>

text \<open>
  What the callback reads of \<open>data\<close>: the pointer lookup \<open>jptr(data.api, pointer)\<close>
  (reftools, external: a parameter, which may throw, \<open>Inl\<close>, or return \<open>undefined\<close>,
  \<open>Inr None\<close>, or a value), the option \<open>data.options.shallowSchemas\<close> and two translation
  strings. \<open>render\<close> is JavaScript's
  conversion to a string of a value that is not a string, which the model leaves open.
\<close>

record data =
  jptr :: "string \<Rightarrow> error + json option"
  shallowSchemas :: bool
  continued :: string
  anonymous :: string
  render :: "json \<Rightarrow> string"

fun str_of :: "data \<Rightarrow> json option \<Rightarrow> string" where
  "str_of d None = ''undefined''"
| "str_of d (Some (JStr s)) = s"
| "str_of d (Some v) = render d v"

text \<open>
  A row. Of the fields the callback sets, the model keeps those that the traversal
  reads back or that decide whether and where a row is emitted; \<open>in\<close>, \<open>description\<close>,
  \<open>format\<close>, \<open>safeType\<close>, \<open>restrictions\<close> and \<open>displayName\<close> are text for display,
  computed from the schema and never read again, and are left out together with the
  \<open>options\<close> (\<open>trim\<close>, \<open>join\<close>, \<open>truncate\<close>) that only format the description. Whether
  a description is present is still tracked, since it decides which pointers are
  looked up.
\<close>

record entry =
  entry_schema :: json
  name :: "json option"
  depth :: int
  type :: "json option"
  ref :: "string option"
  required :: json

record block =
  title :: json
  rows :: "entry list"
  description :: "json option"
  externalDocs :: "json option"

text \<open>
  The walker (oas-schema-walker) is external. It calls the callback once per visited
  node with the node, its parent and the walker state; a visit is the arguments of
  one such call, the state as it is on entry.
\<close>

record visit =
  schema :: json
  parent :: json
  state_depth :: nat
  state_property :: "string option"
  state_top :: bool

text \<open>
  The variables the callback closes over. The source keeps \<open>container\<close> and \<open>block\<close>,
  where \<open>block\<close> is always the element last pushed onto \<open>container\<close>; here \<open>previous\<close>
  holds the blocks before it, so that \<open>container\<close> is \<open>previous @ [block]\<close>.
\<close>

record flat =
  iDepth :: nat
  oDepth :: int
  blockDepth :: nat
  skipDepth :: int
  previous :: "block list"
  block :: block

definition container :: "flat \<Rightarrow> block list" where
  "container st = previous st @ [block st]"

definition new_block :: "string \<Rightarrow> flat \<Rightarrow> flat" where
  "new_block t st =
     st\<lparr>previous := previous st @ [block st],
        block := \<lparr>title = JStr t, rows = [], description = None, externalDocs = None\<rparr>\<rparr>"

definition push :: "entry \<Rightarrow> flat \<Rightarrow> flat" where
  "push e st = st\<lparr>block := (block st)\<lparr>rows := rows (block st) @ [e]\<rparr>\<rparr>"

subsection \<open>Opening blocks\<close>

definition isBlock :: "string option \<Rightarrow> bool" where
  "isBlock property =
     (case property of
        None \<Rightarrow> False
      | Some p \<Rightarrow> p \<noteq> [] \<and> (startsWith p ''allOf'' \<or> startsWith p ''anyOf'' \<or>
                            startsWith p ''oneOf'' \<or> p = ''not''))"

definition translated :: "string \<Rightarrow> string" where
  "translated keyword =
     (if keyword = ''allOf'' then ''and''
      else if keyword = ''anyOf'' then ''or''
      else if keyword = ''oneOf'' then ''xor''
      else keyword)"

definition block_word :: "string \<Rightarrow> string" where
  "block_word property =
     (case split CHR ''/'' (property @ ''/0'') of
        c0 # cs \<Rightarrow> if elem_at cs 0 \<noteq> Some ''0'' then translated c0 else c0
      | [] \<Rightarrow> [])"

definition strip_schemas :: "string \<Rightarrow> string" where
  "strip_schemas r = replace ''#/components/schemas/'' [] r"

text \<open>
  \<open>dschema\<close> and \<open>prefix\<close>. A truthy \<open>$ref\<close> that is not a string has no \<open>replace\<close>
  method, and reading \<open>.discriminator\<close> of an \<open>undefined\<close> or \<open>null\<close> target fails: both
  raise a TypeError, which leaves \<open>schemaToArray\<close>.
\<close>

definition discriminator_suffix :: "data \<Rightarrow> json \<Rightarrow> error + string" where
  "discriminator_suffix d sch =
     (case (if truthy (get sch ''$ref'')
            then (case get sch ''$ref'' of
                    Some (JStr r) \<Rightarrow>
                      (case jptr d r of
                         Inl err \<Rightarrow> Inl err
                       | Inr target \<Rightarrow> Inr (target, strip_schemas r @ ''.''))
                  | _ \<Rightarrow> Inl TypeError)
            else Inr (Some sch, [])) of
        Inl err \<Rightarrow> Inl err
      | Inr (None, pre) \<Rightarrow> Inl TypeError
      | Inr (Some JNull, pre) \<Rightarrow> Inl TypeError
      | Inr (Some dschema, pre) \<Rightarrow>
          (case get dschema ''discriminator'' of
             None \<Rightarrow> Inr []
           | Some disc \<Rightarrow>
               if js_truthy disc
               then Inr ('' - discriminator: '' @ pre @ str_of d (get disc ''propertyName''))
               else Inr []))"

definition enter_block :: "data \<Rightarrow> visit \<Rightarrow> flat \<Rightarrow> error + flat" where
  "enter_block d v st =
     (case (if isBlock (state_property v) then state_property v else None) of
        Some property \<Rightarrow>
          (case discriminator_suffix d (schema v) of
             Inl err \<Rightarrow> Inl err
           | Inr sfx \<Rightarrow>
               Inr ((new_block (block_word property @ sfx) st)\<lparr>blockDepth := state_depth v\<rparr>))
      | None \<Rightarrow>
          if blockDepth st \<noteq> 0 \<and> state_depth v < blockDepth st
          then Inr ((new_block (continued d) st)\<lparr>blockDepth := 0\<rparr>)
          else Inr st)"

subsection \<open>The name of a row\<close>

text \<open>
  \<open>state.property && state.property.indexOf('/')\<close> is falsy for a missing or empty
  property and for one that starts with \<open>/\<close> (index 0); a property without any \<open>/\<close>
  gives -1, which is truthy.
\<close>

definition initial_name :: "data \<Rightarrow> visit \<Rightarrow> json option" where
  "initial_name d v =
     (case state_property v of
        None \<Rightarrow> None
      | Some p \<Rightarrow>
          if p \<noteq> [] \<and> \<not> startsWith p ''/''
          then (if isBlock (state_property v) then Some (JStr (''*'' @ anonymous d @ ''*''))
                else map_option JStr (elem_at (split CHR ''/'' p) 1))
          else None)"

definition titled_name :: "data \<Rightarrow> visit \<Rightarrow> json option" where
  "titled_name d v =
     (if \<not> truthy (initial_name d v) \<and> truthy (get (schema v) ''title'')
      then get (schema v) ''title''
      else initial_name d v)"

text \<open>\<open>x.k\<close> for a value \<open>x\<close> already known to be truthy (\<open>None\<close> is never read).\<close>

fun read :: "json option \<Rightarrow> string \<Rightarrow> json option" where
  "read None k = None"
| "read (Some x) k = get x k"

text \<open>\<open>state.top\<close> after the three branches that force it to \<open>false\<close>.\<close>

definition forced_top :: "visit \<Rightarrow> json option \<Rightarrow> bool" where
  "forced_top v nm =
     (let sch = schema v;
          is_array = (get sch ''type'' = Some (JStr ''array''));
          items = get sch ''items''
      in if is_array \<and> truthy items \<and> truthy (read items ''x-widdershins-oldRef'') \<and> \<not> truthy nm
         then False
         else if is_array \<and> truthy items \<and> truthy (read items ''$ref'') \<and> \<not> truthy nm
         then False
         else if \<not> truthy nm \<and> state_top v \<and> truthy (get sch ''type'') \<and>
                 get sch ''type'' \<noteq> Some (JStr ''object'') \<and>
                 get sch ''type'' \<noteq> Some (JStr ''array'')
         then False
         else state_top v)"

definition derive_name :: "data \<Rightarrow> visit \<Rightarrow> json option \<times> bool" where
  "derive_name d v =
     (let n0 = titled_name d v;
          tp = forced_top v n0;
          n1 = (if \<not> tp \<and> \<not> truthy n0 \<and> state_property v = Some ''additionalProperties''
                then Some (JStr ''**additionalProperties**'') else n0);
          n2 = (if \<not> tp \<and> \<not> truthy n1 \<and> state_property v = Some ''additionalItems''
                then Some (JStr ''**additionalItems**'') else n1);
          n3 = (if \<not> tp \<and> \<not> truthy n2 \<and>
                   (case state_property v of
                      Some p \<Rightarrow> p \<noteq> [] \<and> startsWith p ''patternProperties''
                    | None \<Rightarrow> False)
                then Some (JStr (''*'' @ str_of d n2 @ ''*'')) else n2);
          n4 = (if \<not> tp \<and> \<not> truthy n3 \<and> \<not> truthy (get (parent v) ''items'')
                then Some (JStr (''*'' @ anonymous d @ ''*'')) else n3)
      in (n4, tp))"

subsection \<open>Depth\<close>

text \<open>Run only for a node that has a name at this point.\<close>

definition track_depth :: "nat \<Rightarrow> flat \<Rightarrow> flat" where
  "track_depth sd st =
     (let o1 = (if iDepth st < sd then oDepth st + 1 else oDepth st);
          o2 = (if sd < iDepth st then (if o1 - 1 < 0 then 0 else o1 - 1) else o1)
      in st\<lparr>oDepth := o2, iDepth := sd\<rparr>)"

subsection \<open>References\<close>

text \<open>
  \<open>x[key]\<close> as a pointer: \<open>None\<close> when it is falsy, the string when it is one, and a
  TypeError for any other truthy value, on which \<open>.replace\<close> is not a function.
\<close>

definition pointer_of :: "json \<Rightarrow> string \<Rightarrow> error + string option" where
  "pointer_of x key =
     (case get x key of
        None \<Rightarrow> Inr None
      | Some (JStr r) \<Rightarrow> Inr (if r = [] then None else Some r)
      | Some r \<Rightarrow> if js_truthy r then Inl TypeError else Inr None)"

text \<open>
  The backfill of a missing description from the target of a pointer: whether the
  entry has a description afterwards. Reading \<open>.description\<close> of a target that is
  \<open>undefined\<close> or \<open>null\<close> raises a TypeError.
\<close>

definition lookup_description :: "data \<Rightarrow> string \<Rightarrow> bool \<Rightarrow> error + bool" where
  "lookup_description d pointer described =
     (if described then Inr True
      else (case jptr d pointer of
              Inl err \<Rightarrow> Inl err
            | Inr None \<Rightarrow> Inl TypeError
            | Inr (Some JNull) \<Rightarrow> Inl TypeError
            | Inr (Some target) \<Rightarrow> Inr (truthy (get target ''description''))))"

text \<open>
  One of the two reference blocks of the callback, for the marker
  \<open>x-widdershins-oldRef\<close> and for a live \<open>$ref\<close> (which also sets the type). The
  tuple is \<open>entry.$ref\<close>, \<open>entry.type\<close>, \<open>skipDepth\<close> and whether a description is
  present.
\<close>

definition reference ::
  "data \<Rightarrow> json \<Rightarrow> string \<Rightarrow> bool \<Rightarrow> int \<Rightarrow> string option \<times> json option \<times> int \<times> bool
     \<Rightarrow> error + string option \<times> json option \<times> int \<times> bool" where
  "reference d sch key live dep acc =
     (case acc of (rf, ty, skip, described) \<Rightarrow>
        (case pointer_of sch key of
           Inl err \<Rightarrow> Inl err
         | Inr None \<Rightarrow> Inr acc
         | Inr (Some r) \<Rightarrow>
             (case lookup_description d r described of
                Inl err \<Rightarrow> Inl err
              | Inr described' \<Rightarrow>
                  Inr (Some (strip_schemas r),
                       (if live then Some (JStr ''$ref'') else ty),
                       (if shallowSchemas d then dep else skip),
                       described'))))"

definition references ::
  "data \<Rightarrow> json \<Rightarrow> int \<Rightarrow> int \<Rightarrow> error + string option \<times> json option \<times> int \<times> bool" where
  "references d sch dep skip =
     (case reference d sch ''x-widdershins-oldRef'' False dep
             (None, get sch ''type'', skip, truthy (get sch ''description'')) of
        Inl err \<Rightarrow> Inl err
      | Inr acc \<Rightarrow> reference d sch ''$ref'' True dep acc)"

text \<open>The two lookups made for the items of an array row.\<close>

definition item_reference :: "data \<Rightarrow> json \<Rightarrow> string \<Rightarrow> bool \<Rightarrow> error + bool" where
  "item_reference d items key described =
     (case pointer_of items key of
        Inl err \<Rightarrow> Inl err
      | Inr None \<Rightarrow> Inr described
      | Inr (Some r) \<Rightarrow> lookup_description d r described)"

definition items_lookups :: "data \<Rightarrow> json \<Rightarrow> json option \<Rightarrow> bool \<Rightarrow> error + bool" where
  "items_lookups d sch ty described =
     (case get sch ''items'' of
        None \<Rightarrow> Inr described
      | Some items \<Rightarrow>
          if ty = Some (JStr ''array'') \<and> js_truthy items
          then (case item_reference d items ''x-widdershins-oldRef'' described of
                  Inl err \<Rightarrow> Inl err
                | Inr described' \<Rightarrow> item_reference d items ''$ref'' described')
          else Inr described)"

subsection \<open>Required\<close>

text \<open>
  \<open>===\<close> as \<open>indexOf\<close> applies it: primitives are compared by value. Arrays and objects
  are compared by identity, and a name is never the same object as an element of the
  parent's list.
\<close>

fun strict_eq :: "json \<Rightarrow> json \<Rightarrow> bool" where
  "strict_eq JNull JNull = True"
| "strict_eq (JBool a) (JBool b) = (a = b)"
| "strict_eq (JNum a) (JNum b) = (a = b)"
| "strict_eq (JStr a) (JStr b) = (a = b)"
| "strict_eq _ _ = False"

definition indexOf_found :: "json list \<Rightarrow> json option \<Rightarrow> bool" where
  "indexOf_found xs x = (case x of None \<Rightarrow> False | Some v \<Rightarrow> list_ex (\<lambda>y. strict_eq y v) xs)"

text \<open>
  \<open>parent.required && Array.isArray(parent.required) && parent.required.indexOf(entry.name) >= 0\<close>,
  with \<open>undefined\<close> then replaced by \<open>false\<close>: a falsy \<open>parent.required\<close> that is not
  \<open>undefined\<close> is the value of the conjunction.
\<close>

definition required_of :: "json \<Rightarrow> json option \<Rightarrow> json" where
  "required_of par nm =
     (case get par ''required'' of
        None \<Rightarrow> JBool False
      | Some (JArr xs) \<Rightarrow> JBool (indexOf_found xs nm)
      | Some r \<Rightarrow> if js_truthy r then JBool False else r)"

subsection \<open>The callback\<close>

definition blank_marker :: "json option \<Rightarrow> json option" where
  "blank_marker nm =
     (case nm of
        Some (JStr s) \<Rightarrow> if startsWith s ''x-widdershins-'' then Some (JStr []) else nm
      | _ \<Rightarrow> nm)"

text \<open>
  The entry of a visit, from the name derived for it and the state after the depth
  bookkeeping, together with the new \<open>skipDepth\<close>.
\<close>

definition make_entry :: "data \<Rightarrow> int \<Rightarrow> visit \<Rightarrow> json option \<Rightarrow> flat \<Rightarrow> error + entry \<times> int" where
  "make_entry d offset v nm st =
     (let dep = max (oDepth st + offset) 0 in
      case references d (schema v) dep (skipDepth st) of
        Inl err \<Rightarrow> Inl err
      | Inr (rf, ty, skip, described) \<Rightarrow>
          (case items_lookups d (schema v) ty described of
             Inl err \<Rightarrow> Inl err
           | Inr described' \<Rightarrow>
               (case (case ty of None \<Rightarrow> inferType (schema v) | Some t \<Rightarrow> Inr t) of
                  Inl err \<Rightarrow> Inl err
                | Inr ty' \<Rightarrow>
                    Inr (\<lparr>entry_schema = schema v,
                          name = (if 0 \<le> skip \<and> skip \<le> dep then Some (JStr [])
                                  else blank_marker nm),
                          depth = dep,
                          type = Some ty',
                          ref = rf,
                          required = required_of (parent v) nm\<rparr>,
                         if dep < skip then - 1 else skip))))"

text \<open>
  The callback reads \<open>schema.type\<close> and \<open>parent.required\<close> at every call, which raises a
  TypeError for a node or parent that is \<open>null\<close>. (The walker never passes one: it
  returns before calling back on a \<open>null\<close> or \<open>undefined\<close> node, and a parent is
  \<open>{}\<close> or a node already visited.) The \<open>console.warn\<close> of a property that starts with
  \<open>/\<close> writes a diagnostic only and is not modelled.
\<close>

definition callback :: "data \<Rightarrow> int \<Rightarrow> visit \<Rightarrow> flat \<Rightarrow> error + flat" where
  "callback d offset v st =
     (if schema v = JNull \<or> parent v = JNull then Inl TypeError
      else case enter_block d v st of
        Inl err \<Rightarrow> Inl err
      | Inr st1 \<Rightarrow>
          (case derive_name d v of
             (nm, tp) \<Rightarrow>
               (case make_entry d offset v nm
                       (if truthy nm then track_depth (state_depth v) st1 else st1) of
                  Inl err \<Rightarrow> Inl err
                | Inr (e, skip) \<Rightarrow>
                    Inr ((if (\<not> tp \<or> type e \<noteq> Some (JStr ''object'')) \<and> truthy (name e)
                          then push e else id)
                           ((if truthy nm then track_depth (state_depth v) st1 else st1)
                              \<lparr>skipDepth := skip\<rparr>)))))"

text \<open>The walk: the callback over the visits in order, stopped by the first exception.\<close>

fun walk :: "data \<Rightarrow> int \<Rightarrow> visit list \<Rightarrow> flat \<Rightarrow> error + flat" where
  "walk d offset [] st = Inr st"
| "walk d offset (v # vs) st =
     (case callback d offset v st of
        Inl err \<Rightarrow> Inl err
      | Inr st' \<Rightarrow> walk d offset vs st')"

text \<open>The first of two values that is truthy, the second when the first is not.\<close>

fun truthy_or :: "json option \<Rightarrow> json \<Rightarrow> json" where
  "truthy_or None w = w"
| "truthy_or (Some v) w = (if js_truthy v then v else w)"

definition root_block :: "json option \<Rightarrow> block" where
  "root_block sch =
     (if truthy sch
      then \<lparr>title = truthy_or (read sch ''title'') (truthy_or (read sch ''description'') (JStr [])),
            rows = [],
            description = read sch ''description'',
            externalDocs = (if truthy (read sch ''externalDocs'') then read sch ''externalDocs''
                            else None)\<rparr>
      else \<lparr>title = JStr [], rows = [], description = None, externalDocs = None\<rparr>)"

definition initial :: "json option \<Rightarrow> flat" where
  "initial sch =
     \<lparr>iDepth = 0, oDepth = 0, blockDepth = 0, skipDepth = - 1, previous = [],
      block = root_block sch\<rparr>"

text \<open>
  \<open>schemaToArray(schema, offset, options, data)\<close>, with the walker as a parameter: the
  visits it makes of the schema.
\<close>

definition schemaToArray ::
  "(json option \<Rightarrow> visit list) \<Rightarrow> json option \<Rightarrow> int \<Rightarrow> data \<Rightarrow> error + block list" where
  "schemaToArray walkSchema sch offset d =
     (case walk d offset (walkSchema sch) (initial sch) of
        Inl err \<Rightarrow> Inl err
      | Inr st \<Rightarrow> Inr (container st))"

subsection \<open>The rows of a run\<close>

text \<open>
  All rows of the container, block after block. Rows are only ever appended to the
  last block and blocks to the end of the container, so this list grows at its end;
  \<open>emitted st st'\<close> is what a step or a walk from \<open>st\<close> to \<open>st'\<close> has added.
\<close>

definition all_rows :: "flat \<Rightarrow> entry list" where
  "all_rows st = concat (map rows (container st))"

definition emitted :: "flat \<Rightarrow> flat \<Rightarrow> entry list" where
  "emitted st st' = drop (length (all_rows st)) (all_rows st')"

subsection \<open>Example inputs\<close>

text \<open>
  An owner with a pet that was a reference before it was resolved, and the visits the
  walker makes of it: the root at depth 0, its properties at depth 1, theirs at
  depth 2. The pointer lookup of the example misses every pointer (\<open>jptr\<close> then returns
  \<open>false\<close>).
\<close>

definition example_data :: data where
  "example_data =
     \<lparr>jptr = (\<lambda>pointer. Inr (Some (JBool False))), shallowSchemas = False,
      continued = ''continued'', anonymous = ''anonymous'',
      render = (\<lambda>v. ''[object Object]'')\<rparr>"

definition id_schema :: json where
  "id_schema = JObj [(''type'', JStr ''integer'')]"

definition name_schema :: json where
  "name_schema = JObj [(''type'', JStr ''string'')]"

definition pet_schema :: json where
  "pet_schema =
     JObj [(''x-widdershins-oldRef'', JStr ''#/components/schemas/Pet''),
           (''type'', JStr ''object''),
           (''properties'', JObj [(''id'', id_schema)])]"

definition owner_schema :: json where
  "owner_schema =
     JObj [(''title'', JStr ''Owner''),
           (''type'', JStr ''object''),
           (''properties'', JObj [(''pet'', pet_schema), (''name'', name_schema)]),
           (''required'', JArr [JStr ''name''])]"

definition owner_visit :: visit where
  "owner_visit =
     \<lparr>schema = owner_schema, parent = JObj [], state_depth = 0,
      state_property = None, state_top = True\<rparr>"

definition pet_visit :: visit where
  "pet_visit =
     \<lparr>schema = pet_schema, parent = owner_schema, state_depth = 1,
      state_property = Some ''properties/pet'', state_top = False\<rparr>"

definition id_visit :: visit where
  "id_visit =
     \<lparr>schema = id_schema, parent = pet_schema, state_depth = 2,
      state_property = Some ''properties/id'', state_top = False\<rparr>"

definition name_visit :: visit where
  "name_visit =
     \<lparr>schema = name_schema, parent = owner_schema, state_depth = 1,
      state_property = Some ''properties/name'', state_top = False\<rparr>"

definition owner_visits :: "visit list" where
  "owner_visits = [owner_visit, pet_visit, id_visit, name_visit]"

definition pet_row :: entry where
  "pet_row =
     \<lparr>entry_schema = pet_schema, name = Some (JStr ''pet''), depth = 1,
      type = Some (JStr ''object''), ref = Some ''Pet'', required = JBool False\<rparr>"

definition id_row :: entry where
  "id_row =
     \<lparr>entry_schema = id_schema, name = Some (JStr ''id''), depth = 2,
      type = Some (JStr ''integer''), ref = None, required = JBool False\<rparr>"

definition name_row :: entry where
  "name_row =
     \<lparr>entry_schema = name_schema, name = Some (JStr ''name''), depth = 1,
      type = Some (JStr ''string''), ref = None, required = JBool True\<rparr>"

definition owner_block :: block where
  "owner_block =
     \<lparr>title = JStr ''Owner'', rows = [pet_row, id_row, name_row], description = None,
      externalDocs = None\<rparr>"

text \<open>The second branch of an \<open>allOf\<close>, without and with a discriminator.\<close>

definition and_visit :: visit where
  "and_visit =
     \<lparr>schema = name_schema, parent = JObj [(''allOf'', JArr [id_schema, name_schema])],
      state_depth = 1, state_property = Some ''allOf/1'', state_top = False\<rparr>"

definition and_row :: entry where
  "and_row =
     \<lparr>entry_schema = name_schema, name = Some (JStr ''*anonymous*''), depth = 1,
      type = Some (JStr ''string''), ref = None, required = JBool False\<rparr>"

definition and_state :: flat where
  "and_state =
     \<lparr>iDepth = 1, oDepth = 1, blockDepth = 1, skipDepth = - 1,
      previous = [root_block None],
      block = \<lparr>title = JStr ''and'', rows = [and_row], description = None,
                externalDocs = None\<rparr>\<rparr>"

definition discriminator_visit :: visit where
  "discriminator_visit =
     and_visit\<lparr>schema :=
       JObj [(''discriminator'', JObj [(''propertyName'', JStr ''petType'')])]\<rparr>"

text \<open>
  A property of a parent whose \<open>required\<close> key is there but empty, as a bare
  \<open>required:\<close> line of a YAML document is read (\<open>null\<close>).
\<close>

definition null_required_visit :: visit where
  "null_required_visit =
     \<lparr>schema = name_schema,
      parent = JObj [(''type'', JStr ''object''), (''required'', JNull),
                     (''properties'', JObj [(''name'', name_schema)])],
      state_depth = 1, state_property = Some ''properties/name'', state_top = False\<rparr>"

section \<open>Properties of inferType\<close>

lemma inferType_explicit:
  "get sch ''type'' = Some t \<Longrightarrow> js_truthy t \<Longrightarrow> inferType sch = Inr t"
  by (simp add: inferType_def)

text \<open>
  Without a truthy \<open>type\<close>, the answer is the only entry of \<open>possibleTypes\<close> when the
  list has exactly one entry, and \<open>any\<close> otherwise; the list counts a type once per
  keyword group and once per enum value.
\<close>

lemma inferType_candidates:
  "\<not> truthy (get sch ''type'') \<Longrightarrow> possibleTypes sch = Inr ts \<Longrightarrow>
   inferType sch = Inr (JStr (case ts of [t] \<Rightarrow> t | _ \<Rightarrow> ''any''))"
  by (auto simp: inferType_def split: list.splits)

lemma inferType_minimum_maximum:
  "inferType (JObj [(''minimum'', JNum 0), (''maximum'', JNum 10)]) = Inr (JStr ''number'')"
  by (simp add: inferType_def possibleTypes_def has_def)

lemma inferType_single_enum:
  "inferType (JObj [(''enum'', JArr [JStr ''a''])]) = Inr (JStr ''string'')"
  by (simp add: inferType_def possibleTypes_def has_def)

text \<open>
  C1. Without an explicit type, a schema whose only hint is \<open>enum: ["a", "b"]\<close> should
  infer \<open>"string"\<close>, the one type its values have. The code pushes \<open>typeof value\<close> once
  per enum value and then asks for a list of length one, so the two equal entries give
  \<open>"any"\<close>.
\<close>

theorem inferType_enum_two_strings:
  "inferType (JObj [(''enum'', JArr [JStr ''a'', JStr ''b''])]) = Inr (JStr ''any'')"
  by (simp add: inferType_def possibleTypes_def has_def)

section \<open>Properties of strim\<close>

lemma recurse_strim_depth_limit:
  "0 < m \<Longrightarrow> recurse_strim m k v = depth_limit m k v"
  by (induction m k v rule: recurse_strim.induct) auto

text \<open>
  C9. A maximum depth of zero or less leaves the value as it is. A positive one
  replaces every array and object at that depth or deeper by its empty equivalent and
  keeps what lies above: \<open>strim\<close> computes the depth limit of the specification, counted
  from depth 0 at the root.
\<close>

theorem strim_depth_limit:
  "(m \<le> 0 \<longrightarrow> strim v (Some m) = v) \<and>
   (0 < m \<longrightarrow> strim v (Some m) = depth_limit m 0 v)"
  by (simp add: strim_def recurse_strim_depth_limit)

theorem strim_depth_limit_witness:
  "strim (JObj [(''a'', JObj [(''b'', JNum 1)]), (''c'', JArr [JNum 2, JArr [JNum 3]])]) (Some 0)
     = JObj [(''a'', JObj [(''b'', JNum 1)]), (''c'', JArr [JNum 2, JArr [JNum 3]])] \<and>
   strim (JObj [(''a'', JObj [(''b'', JNum 1)]), (''c'', JArr [JNum 2, JArr [JNum 3]])]) (Some 2)
     = JObj [(''a'', JObj [(''b'', JNum 1)]), (''c'', JArr [JNum 2, JArr []])] \<and>
   strim (JObj [(''a'', JObj [(''b'', JNum 1)]), (''c'', JArr [JNum 2, JArr [JNum 3]])]) (Some 1)
     = JObj [(''a'', JObj []), (''c'', JArr [])]"
  using strim_depth_limit [of 0 "JObj [(''a'', JObj [(''b'', JNum 1)]), (''c'', JArr [JNum 2, JArr [JNum 3]])]"]
        strim_depth_limit [of 2 "JObj [(''a'', JObj [(''b'', JNum 1)]), (''c'', JArr [JNum 2, JArr [JNum 3]])]"]
        strim_depth_limit [of 1 "JObj [(''a'', JObj [(''b'', JNum 1)]), (''c'', JArr [JNum 2, JArr [JNum 3]])]"]
  by simp

section \<open>Properties of getSample\<close>

lemma get_Some_truthy: "get node k = Some v \<Longrightarrow> js_truthy node"
  by (cases node) simp_all

text \<open>
  C2, as the code has it. The guard is \<open>orig && orig.example\<close>: a node whose example is
  truthy is answered with that example, whatever the options, the sampler and the
  session are, and the session is left untouched (no synthesis, no cleaning, no
  trimming).
\<close>

theorem getSample_truthy_example:
  "get node ''example'' = Some example \<Longrightarrow> js_truthy example \<Longrightarrow>
   getSample sampler (Some node) opts s = (Inr (Some example), s)"
  by (simp add: getSample_def get_Some_truthy)

theorem getSample_truthy_example_witness:
  "get (JObj [(''type'', JStr ''string''), (''example'', JStr ''x-widdershins'')]) ''example''
     = Some (JStr ''x-widdershins'') \<and>
   js_truthy (JStr ''x-widdershins'') \<and>
   getSample (\<lambda>c obj. Inl ''unused'')
     (Some (JObj [(''type'', JStr ''string''), (''example'', JStr ''x-widdershins'')]))
     \<lparr>sample = True, verbose = False, maxDepth = Some 1\<rparr>
     \<lparr>samplerErrors = [], diagnostics = []\<rparr>
     = (Inr (Some (JStr ''x-widdershins'')), \<lparr>samplerErrors = [], diagnostics = []\<rparr>)"
  using getSample_truthy_example
    [of "JObj [(''type'', JStr ''string''), (''example'', JStr ''x-widdershins'')]"
        "JStr ''x-widdershins''" "\<lambda>c obj. Inl ''unused''"
        "\<lparr>sample = True, verbose = False, maxDepth = Some 1\<rparr>"
        "\<lparr>samplerErrors = [], diagnostics = []\<rparr>"]
  by simp

text \<open>
  An example that is set but falsy (here \<open>example: 0\<close>, with sampling switched off) is
  not returned: the node itself comes back.
\<close>

theorem getSample_example_zero:
  "get (JObj [(''type'', JStr ''integer''), (''example'', JNum 0)]) ''example'' = Some (JNum 0) \<and>
   fst (getSample (\<lambda>c obj. Inr None)
          (Some (JObj [(''type'', JStr ''integer''), (''example'', JNum 0)]))
          \<lparr>sample = False, verbose = False, maxDepth = None\<rparr>
          \<lparr>samplerErrors = [], diagnostics = []\<rparr>)
     = Inr (Some (JObj [(''type'', JStr ''integer''), (''example'', JNum 0)])) \<and>
   fst (getSample (\<lambda>c obj. Inr None)
          (Some (JObj [(''type'', JStr ''integer''), (''example'', JNum 0)]))
          \<lparr>sample = False, verbose = False, maxDepth = None\<rparr>
          \<lparr>samplerErrors = [], diagnostics = []\<rparr>)
     \<noteq> Inr (Some (JNum 0))"
  by (simp add: getSample_def getSampleInner_def strim_def)

lemma getSampleInner_returns:
  "\<exists>r s'. getSampleInner sampler orig opts s = (Inr r, s')"
  by (auto simp: getSampleInner_def split: option.splits attempt.splits prod.splits)

text \<open>
  \<open>getSampleInner\<close> alone may return \<open>undefined\<close>: for a missing node, and when the
  envelope sample has no \<open>anonymous\<close> property.
\<close>

lemma getSampleInner_undefined:
  "fst (getSampleInner (\<lambda>c obj. Inr (Some (JObj []))) (Some (JObj [(''type'', JStr ''string'')]))
          \<lparr>sample = True, verbose = False, maxDepth = None\<rparr>
          \<lparr>samplerErrors = [], diagnostics = []\<rparr>) = Inr None"
  by (simp add: getSampleInner_def try_sample_def)

text \<open>
  C3. Whatever the node, the options, the session and the sample generator are (a
  generator that throws at every call included), \<open>getSample\<close> raises nothing and
  returns a defined value. What the generator throws is an exception object: the
  handlers read its \<open>message\<close>.
\<close>

theorem getSample_defined:
  "\<exists>v s'. getSample sampler orig opts s = (Inr (Some v), s')"
proof -
  obtain r s' where inner: "getSampleInner sampler orig opts s = (Inr r, s')"
    using getSampleInner_returns by blast
  show ?thesis
  proof (cases orig)
    case None
    with inner show ?thesis by (simp add: getSample_def)
  next
    case (Some node)
    show ?thesis
    proof (cases "js_truthy node \<and> truthy (get node ''example'')")
      case True
      then obtain e where "get node ''example'' = Some e"
        by (cases "get node ''example''") auto
      with True Some show ?thesis by (simp add: getSample_def)
    next
      case False
      with inner Some show ?thesis by (auto simp: getSample_def)
    qed
  qed
qed

text \<open>
  A generator that throws the same error at every call: the node comes back cleaned,
  with one full diagnostic and one repeat marker.
\<close>

lemma getSample_generator_throws:
  "getSample (\<lambda>c obj. Inl ''boom'')
     (Some (JObj [(''type'', JStr ''object''), (''x-widdershins-oldRef'', JStr ''#/a'')]))
     \<lparr>sample = True, verbose = False, maxDepth = Some 0\<rparr>
     \<lparr>samplerErrors = [], diagnostics = []\<rparr>
   = (Inr (Some (JObj [(''type'', JStr ''object'')])),
      \<lparr>samplerErrors = [''boom''],
       diagnostics = [Console_error ''# sampler boom'', Stderr ''.'']\<rparr>)"
  by (simp add: getSample_def getSampleInner_def try_sample_def catch_sample_def report_def
        strim_def)

section \<open>Properties of schemaToArray\<close>

subsection \<open>One call of the callback\<close>

lemma all_rows_new_block [simp]: "all_rows (new_block t st) = all_rows st"
  by (simp add: all_rows_def container_def new_block_def)

lemma all_rows_push [simp]: "all_rows (push e st) = all_rows st @ [e]"
  by (simp add: all_rows_def container_def push_def)

lemma all_rows_update [simp]:
  "all_rows (st\<lparr>blockDepth := b\<rparr>) = all_rows st"
  "all_rows (st\<lparr>skipDepth := k\<rparr>) = all_rows st"
  "all_rows (st\<lparr>oDepth := od\<rparr>) = all_rows st"
  "all_rows (st\<lparr>iDepth := i\<rparr>) = all_rows st"
  by (simp_all add: all_rows_def container_def)

lemma all_rows_track_depth [simp]: "all_rows (track_depth sd st) = all_rows st"
  by (simp add: track_depth_def Let_def)

lemma push_fields [simp]:
  "iDepth (push e st) = iDepth st" "oDepth (push e st) = oDepth st"
  "skipDepth (push e st) = skipDepth st" "blockDepth (push e st) = blockDepth st"
  "previous (push e st) = previous st" "title (block (push e st)) = title (block st)"
  by (simp_all add: push_def)

lemma track_depth_fields [simp]:
  "iDepth (track_depth sd st) = sd"
  "skipDepth (track_depth sd st) = skipDepth st" "blockDepth (track_depth sd st) = blockDepth st"
  "previous (track_depth sd st) = previous st" "block (track_depth sd st) = block st"
  by (simp_all add: track_depth_def Let_def)

lemma track_depth_mono: "iDepth st \<le> sd \<Longrightarrow> oDepth st \<le> oDepth (track_depth sd st)"
  by (simp add: track_depth_def Let_def)

lemma enter_block_rows: "enter_block d v st = Inr st1 \<Longrightarrow> all_rows st1 = all_rows st"
  by (auto simp: enter_block_def split: option.splits sum.splits if_splits)

lemma enter_block_depths:
  "enter_block d v st = Inr st1 \<Longrightarrow>
   iDepth st1 = iDepth st \<and> oDepth st1 = oDepth st \<and> skipDepth st1 = skipDepth st"
  by (auto simp: enter_block_def new_block_def split: option.splits sum.splits if_splits)

lemma callback_Inr:
  assumes "callback d offset v st = Inr st'"
  obtains st1 nm tp e skip where
    "enter_block d v st = Inr st1"
    "derive_name d v = (nm, tp)"
    "make_entry d offset v nm (if truthy nm then track_depth (state_depth v) st1 else st1)
       = Inr (e, skip)"
    "st' = (if (\<not> tp \<or> type e \<noteq> Some (JStr ''object'')) \<and> truthy (name e) then push e else id)
             ((if truthy nm then track_depth (state_depth v) st1 else st1)\<lparr>skipDepth := skip\<rparr>)"
  using assms unfolding callback_def
  by (auto split: sum.splits prod.splits if_splits)

lemma make_entry_Inr:
  assumes "make_entry d offset v nm st = Inr (e, skip')"
  obtains rf ty skip described ty' where
    "references d (schema v) (max (oDepth st + offset) 0) (skipDepth st)
       = Inr (rf, ty, skip, described)"
    "(case ty of None \<Rightarrow> inferType (schema v) | Some t \<Rightarrow> Inr t) = Inr ty'"
    "e = \<lparr>entry_schema = schema v,
          name = (if 0 \<le> skip \<and> skip \<le> max (oDepth st + offset) 0 then Some (JStr [])
                  else blank_marker nm),
          depth = max (oDepth st + offset) 0,
          type = Some ty',
          ref = rf,
          required = required_of (parent v) nm\<rparr>"
    "skip' = (if max (oDepth st + offset) 0 < skip then - 1 else skip)"
  using assms unfolding make_entry_def Let_def
  by (auto split: sum.splits prod.splits)

lemma blank_marker_truthy: "truthy (blank_marker nm) \<Longrightarrow> truthy nm \<and> blank_marker nm = nm"
  by (auto simp: blank_marker_def split: option.splits json.splits if_splits)

lemma blank_marker_fixed:
  "blank_marker nm = nm \<Longrightarrow> truthy nm \<Longrightarrow> nm = Some (JStr s) \<Longrightarrow>
   s \<noteq> [] \<and> \<not> startsWith s ''x-widdershins-''"
  by (auto simp: blank_marker_def split: if_splits)

text \<open>
  What one call does to the rows: nothing, or one row at the end, which then carries
  the name derived for the visit, unblanked.
\<close>

lemma callback_row:
  assumes "callback d offset v st = Inr st'"
  shows "all_rows st' = all_rows st \<or>
         (\<exists>e tp. all_rows st' = all_rows st @ [e] \<and> derive_name d v = (name e, tp) \<and>
            truthy (name e) \<and> blank_marker (name e) = name e \<and>
            depth e = max (oDepth st' + offset) 0 \<and> iDepth st' = state_depth v \<and>
            required e = required_of (parent v) (name e) \<and>
            (\<not> tp \<or> type e \<noteq> Some (JStr ''object'')) \<and> entry_schema e = schema v)"
proof -
  from assms obtain st1 nm tp e skip where
    eb: "enter_block d v st = Inr st1" and
    dn: "derive_name d v = (nm, tp)" and
    me: "make_entry d offset v nm (if truthy nm then track_depth (state_depth v) st1 else st1)
           = Inr (e, skip)" and
    st': "st' = (if (\<not> tp \<or> type e \<noteq> Some (JStr ''object'')) \<and> truthy (name e)
                 then push e else id)
             ((if truthy nm then track_depth (state_depth v) st1 else st1)\<lparr>skipDepth := skip\<rparr>)"
    by (rule callback_Inr)
  define st2 where "st2 = (if truthy nm then track_depth (state_depth v) st1 else st1)"
  have rows2: "all_rows st2 = all_rows st"
    using enter_block_rows [OF eb] by (simp add: st2_def)
  note me' = me [folded st2_def] and st'' = st' [folded st2_def]
  show ?thesis
  proof (cases "(\<not> tp \<or> type e \<noteq> Some (JStr ''object'')) \<and> truthy (name e)")
    case False
    then have "st' = st2\<lparr>skipDepth := skip\<rparr>"
      using st'' by auto
    with rows2 show ?thesis by simp
  next
    case True
    then have eq: "st' = push e (st2\<lparr>skipDepth := skip\<rparr>)"
      using st'' by auto
    from me' obtain skip0 where
      nme: "name e = (if 0 \<le> skip0 \<and> skip0 \<le> max (oDepth st2 + offset) 0 then Some (JStr [])
                      else blank_marker nm)" and
      dpe: "depth e = max (oDepth st2 + offset) 0" and
      rqe: "required e = required_of (parent v) nm" and
      sce: "entry_schema e = schema v"
      by (rule make_entry_Inr) simp
    from True nme have bm: "name e = blank_marker nm" "truthy (blank_marker nm)"
      by (auto split: if_splits)
    then have nm: "truthy nm" "name e = nm"
      using blank_marker_truthy by auto
    from eq rows2 have "all_rows st' = all_rows st @ [e]" by simp
    moreover from eq nm have "oDepth st' = oDepth st2" "iDepth st' = state_depth v"
      by (simp_all add: st2_def)
    ultimately show ?thesis
      using True dn nm bm dpe rqe sce by auto
  qed
qed

lemma callback_depths:
  assumes "callback d offset v st = Inr st'"
  shows "(iDepth st' = state_depth v \<or> (iDepth st' = iDepth st \<and> oDepth st' = oDepth st)) \<and>
         (iDepth st \<le> state_depth v \<longrightarrow> oDepth st \<le> oDepth st')"
proof -
  from assms obtain st1 nm tp e skip where
    eb: "enter_block d v st = Inr st1" and
    st': "st' = (if (\<not> tp \<or> type e \<noteq> Some (JStr ''object'')) \<and> truthy (name e)
                 then push e else id)
             ((if truthy nm then track_depth (state_depth v) st1 else st1)\<lparr>skipDepth := skip\<rparr>)"
    by (rule callback_Inr)
  from enter_block_depths [OF eb] have "iDepth st1 = iDepth st" "oDepth st1 = oDepth st"
    by simp_all
  with st' show ?thesis
    using track_depth_mono [of st1 "state_depth v"] by (auto split: if_splits)
qed

subsection \<open>Walks\<close>

lemma emitted_append: "all_rows st' = all_rows st @ rs \<Longrightarrow> emitted st st' = rs"
  by (simp add: emitted_def)

lemma callback_extends:
  "callback d offset v st = Inr st' \<Longrightarrow> \<exists>rs. all_rows st' = all_rows st @ rs"
  using callback_row [of d offset v st st'] by auto

lemma walk_extends:
  "walk d offset vs st = Inr st' \<Longrightarrow> \<exists>rs. all_rows st' = all_rows st @ rs"
proof (induction vs arbitrary: st)
  case Nil
  then show ?case by simp
next
  case (Cons v vs)
  then obtain st1 where cb: "callback d offset v st = Inr st1"
    and wk: "walk d offset vs st1 = Inr st'"
    by (auto split: sum.splits)
  from callback_extends [OF cb] Cons.IH [OF wk]
  show ?case by auto
qed

lemma walk_emitted:
  "walk d offset vs st = Inr st' \<Longrightarrow> all_rows st' = all_rows st @ emitted st st'"
  using walk_extends [of d offset vs st st'] emitted_append [of st' st] by auto

lemma walk_Cons_emitted:
  assumes "callback d offset v st = Inr st1" and "walk d offset vs st1 = Inr st'"
  shows "emitted st st' = emitted st st1 @ emitted st1 st'"
proof -
  from callback_extends [OF assms(1)] obtain rs1 where 1: "all_rows st1 = all_rows st @ rs1" ..
  from walk_extends [OF assms(2)] obtain rs2 where 2: "all_rows st' = all_rows st1 @ rs2" ..
  from 1 2 have "all_rows st' = all_rows st @ (rs1 @ rs2)" by simp
  then have "emitted st st' = rs1 @ rs2" by (rule emitted_append)
  with emitted_append [OF 1] emitted_append [OF 2] show ?thesis by simp
qed

lemma all_rows_initial: "all_rows (initial sch) = []"
  by (simp add: all_rows_def container_def initial_def root_block_def)

lemma schemaToArray_rows:
  assumes "schemaToArray walkSchema sch offset d = Inr blocks"
  obtains st where "walk d offset (walkSchema sch) (initial sch) = Inr st"
    and "concat (map rows blocks) = emitted (initial sch) st"
proof -
  from assms obtain st where w: "walk d offset (walkSchema sch) (initial sch) = Inr st"
    and b: "blocks = container st"
    by (auto simp: schemaToArray_def split: sum.splits)
  from walk_extends [OF w] obtain rs where "all_rows st = all_rows (initial sch) @ rs" ..
  then have "emitted (initial sch) st = all_rows st"
    using emitted_append [of st "initial sch" rs] by (simp add: all_rows_initial)
  with b have "concat (map rows blocks) = emitted (initial sch) st"
    by (simp add: all_rows_def)
  with w show ?thesis by (rule that)
qed

lemma callback_emitted_cases:
  assumes "callback d offset v st = Inr st'"
  shows "emitted st st' = [] \<or>
         (\<exists>e tp. emitted st st' = [e] \<and> derive_name d v = (name e, tp) \<and>
            truthy (name e) \<and> blank_marker (name e) = name e \<and>
            depth e = max (oDepth st' + offset) 0 \<and> iDepth st' = state_depth v \<and>
            required e = required_of (parent v) (name e) \<and>
            (\<not> tp \<or> type e \<noteq> Some (JStr ''object'')) \<and> entry_schema e = schema v)"
  using callback_row [OF assms] by (auto simp: emitted_def)

lemma walk_row:
  "walk d offset vs st = Inr st' \<Longrightarrow> e \<in> set (emitted st st') \<Longrightarrow>
   truthy (name e) \<and> blank_marker (name e) = name e \<and> 0 \<le> depth e"
proof (induction vs arbitrary: st)
  case Nil
  then show ?case by (simp add: emitted_def)
next
  case (Cons v vs)
  then obtain st1 where cb: "callback d offset v st = Inr st1"
    and wk: "walk d offset vs st1 = Inr st'"
    by (auto split: sum.splits)
  from Cons.prems(2) walk_Cons_emitted [OF cb wk]
  have "e \<in> set (emitted st st1) \<or> e \<in> set (emitted st1 st')" by auto
  then show ?case
  proof
    assume "e \<in> set (emitted st st1)"
    with callback_emitted_cases [OF cb] show ?thesis by auto
  next
    assume "e \<in> set (emitted st1 st')"
    with Cons.IH [OF wk] show ?thesis .
  qed
qed

text \<open>
  Below a state whose last named depth is not deeper than any visit to come, a walk
  that only goes deeper never lowers \<open>oDepth\<close>.
\<close>

lemma walk_nesting_from:
  assumes "walk d offset vs st = Inr st'"
    and "sorted_wrt (<) (map state_depth vs)"
    and "\<forall>v\<in>set vs. iDepth st \<le> state_depth v"
  shows "sorted (map depth (emitted st st')) \<and>
         (\<forall>e\<in>set (emitted st st'). max (oDepth st + offset) 0 \<le> depth e)"
  using assms
proof (induction vs arbitrary: st)
  case Nil
  then show ?case by (simp add: emitted_def)
next
  case (Cons v vs)
  then obtain st1 where cb: "callback d offset v st = Inr st1"
    and wk: "walk d offset vs st1 = Inr st'"
    by (auto split: sum.splits)
  from Cons.prems(3) have le: "iDepth st \<le> state_depth v" by simp
  from callback_depths [OF cb] le
  have i1: "iDepth st1 = state_depth v \<or> iDepth st1 = iDepth st" and o1: "oDepth st \<le> oDepth st1"
    by auto
  from Cons.prems(2) have srt: "sorted_wrt (<) (map state_depth vs)"
    and lt: "\<forall>w\<in>set vs. state_depth v < state_depth w"
    by auto
  from i1 lt Cons.prems(3) have "\<forall>w\<in>set vs. iDepth st1 \<le> state_depth w"
    by (auto simp: less_imp_le)
  from Cons.IH [OF wk srt this]
  have rest: "sorted (map depth (emitted st1 st'))"
    and low: "\<forall>e\<in>set (emitted st1 st'). max (oDepth st1 + offset) 0 \<le> depth e"
    by auto
  have parts: "emitted st st' = emitted st st1 @ emitted st1 st'"
    by (rule walk_Cons_emitted [OF cb wk])
  from callback_emitted_cases [OF cb]
  consider (none) "emitted st st1 = []"
    | (one) e where "emitted st st1 = [e]" "depth e = max (oDepth st1 + offset) 0"
    by auto
  then show ?case
  proof cases
    case none
    with parts rest low o1 show ?thesis by fastforce
  next
    case (one e)
    with parts rest low o1 show ?thesis by fastforce
  qed
qed

subsection \<open>References and types\<close>

lemma pointer_of_falsy: "\<not> truthy (get x key) \<Longrightarrow> pointer_of x key = Inr None"
  by (auto simp: pointer_of_def split: option.splits json.splits)

lemma pointer_of_truthy:
  "truthy (get x key) \<Longrightarrow> pointer_of x key = Inr p \<Longrightarrow> \<exists>r. p = Some r"
  by (auto simp: pointer_of_def split: option.splits json.splits if_splits)

lemma references_type:
  assumes "references d sch dep skip = Inr (rf, ty, skip', described)"
    and "\<not> truthy (get sch ''$ref'')"
  shows "ty = get sch ''type''"
  using assms
  by (auto simp: references_def reference_def pointer_of_falsy split: sum.splits option.splits)

lemma references_shallow:
  assumes "references d sch dep skip = Inr (rf, ty, skip', described)"
    and "shallowSchemas d"
    and "truthy (get sch ''x-widdershins-oldRef'') \<or> truthy (get sch ''$ref'')"
  shows "skip' = dep"
proof (cases "truthy (get sch ''$ref'')")
  case True
  with assms(1,2) show ?thesis
    by (auto simp: references_def reference_def split: sum.splits option.splits prod.splits
          dest: pointer_of_truthy)
next
  case False
  with assms(3) have "truthy (get sch ''x-widdershins-oldRef'')" by simp
  with assms(1,2) False show ?thesis
    by (auto simp: references_def reference_def pointer_of_falsy
          split: sum.splits option.splits prod.splits dest: pointer_of_truthy)
qed

lemma forced_top_object:
  "state_top v \<Longrightarrow> get (schema v) ''type'' = Some (JStr ''object'') \<or> get (schema v) ''type'' = None
   \<Longrightarrow> forced_top v nm"
  by (auto simp: forced_top_def Let_def)

subsection \<open>Strings\<close>






subsection \<open>The examples, evaluated\<close>

lemmas example_defs = example_data_def id_schema_def name_schema_def pet_schema_def
  owner_schema_def owner_visit_def pet_visit_def id_visit_def name_visit_def owner_visits_def
  pet_row_def id_row_def name_row_def owner_block_def and_visit_def and_row_def and_state_def
  discriminator_visit_def null_required_visit_def

lemmas flatten_defs = schemaToArray_def initial_def root_block_def container_def callback_def
  enter_block_def isBlock_def startsWith_def derive_name_def titled_name_def initial_name_def
  forced_top_def elem_at_def track_depth_def make_entry_def references_def reference_def
  pointer_of_def lookup_description_def strip_schemas_def items_lookups_def item_reference_def
  required_of_def indexOf_found_def blank_marker_def push_def new_block_def inferType_def
  possibleTypes_def has_def block_word_def translated_def discriminator_suffix_def
  all_rows_def emitted_def

lemma flatten_owner:
  "schemaToArray (\<lambda>sch. owner_visits) (Some owner_schema) 0 example_data = Inr [owner_block]"
  by (simp add: example_defs flatten_defs Let_def)

lemma flatten_owner_negative_offset:
  "schemaToArray (\<lambda>sch. owner_visits) (Some owner_schema) (- 2) example_data
     = Inr [owner_block\<lparr>rows := [pet_row\<lparr>depth := 0\<rparr>, id_row\<lparr>depth := 0\<rparr>,
                                  name_row\<lparr>depth := 0\<rparr>]\<rparr>]"
  by (simp add: example_defs flatten_defs Let_def)

lemma walk_owner_nesting:
  "walk example_data 0 [owner_visit, pet_visit, id_visit] (initial (Some owner_schema))
     = Inr \<lparr>iDepth = 2, oDepth = 2, blockDepth = 0, skipDepth = - 1, previous = [],
            block = owner_block\<lparr>rows := [pet_row, id_row]\<rparr>\<rparr>"
  by (simp add: example_defs flatten_defs Let_def)

lemma callback_owner:
  "callback example_data 0 owner_visit (initial (Some owner_schema))
     = Inr (initial (Some owner_schema))"
  by (simp add: example_defs flatten_defs Let_def)






subsection \<open>Names\<close>

text \<open>
  C8. Every row in every block that \<open>schemaToArray\<close> returns has a name: the name is
  truthy, so it is not the empty string, and a string name does not start with the
  marker prefix \<open>x-widdershins-\<close> (such a name is blanked, and a blanked row is never
  pushed).
\<close>

theorem rows_have_names:
  assumes "schemaToArray walkSchema sch offset d = Inr blocks"
    and "b \<in> set blocks" and "e \<in> set (rows b)"
  shows "truthy (name e) \<and> name e \<noteq> Some (JStr []) \<and>
         (\<forall>s. name e = Some (JStr s) \<longrightarrow> \<not> startsWith s ''x-widdershins-'')"
proof -
  from assms(1) obtain st where w: "walk d offset (walkSchema sch) (initial sch) = Inr st"
    and r: "concat (map rows blocks) = emitted (initial sch) st"
    by (rule schemaToArray_rows)
  from assms(2,3) have "e \<in> set (concat (map rows blocks))" by auto
  with r have "e \<in> set (emitted (initial sch) st)" by simp
  from walk_row [OF w this] have n: "truthy (name e)" "blank_marker (name e) = name e"
    by simp_all
  from n(1) have "name e \<noteq> Some (JStr [])" by auto
  with n blank_marker_fixed [OF n(2,1)] show ?thesis by blast
qed

theorem rows_have_names_witness:
  "schemaToArray (\<lambda>sch. owner_visits) (Some owner_schema) 0 example_data = Inr [owner_block] \<and>
   owner_block \<in> set [owner_block] \<and> pet_row \<in> set (rows owner_block) \<and>
   truthy (name pet_row) \<and> name pet_row = Some (JStr ''pet'') \<and>
   \<not> startsWith ''pet'' ''x-widdershins-''"
proof -
  have blk: "owner_block \<in> set [owner_block]" by simp
  have row: "pet_row \<in> set (rows owner_block)" by (simp add: owner_block_def)
  have nm: "name pet_row = Some (JStr ''pet'')" by (simp add: pet_row_def)
  from rows_have_names [OF flatten_owner blk row] nm
  have "truthy (name pet_row)" and "\<not> startsWith ''pet'' ''x-widdershins-''"
    by simp_all
  with flatten_owner blk row nm show ?thesis by blast
qed

subsection \<open>Required\<close>




subsection \<open>Depth\<close>

text \<open>
  C7. Every row that \<open>schemaToArray\<close> returns has a depth of at least 0, for any
  schema, visits and offset, negative offsets included. And over visits that go
  strictly deeper one after the other, started in any state, the rows emitted have
  depths that never decrease. (No hypothesis about combinators is needed: opening a
  block does not touch the depth counters.)
\<close>

theorem depth_invariant:
  "(schemaToArray walkSchema sch offset d = Inr blocks \<longrightarrow>
      (\<forall>b\<in>set blocks. \<forall>e\<in>set (rows b). 0 \<le> depth e)) \<and>
   (walk d offset vs st = Inr st' \<longrightarrow> sorted_wrt (<) (map state_depth vs) \<longrightarrow>
      sorted (map depth (emitted st st')))"
proof (intro conjI impI ballI)
  fix b e
  assume s: "schemaToArray walkSchema sch offset d = Inr blocks"
    and b: "b \<in> set blocks" and e: "e \<in> set (rows b)"
  from s obtain fin where w: "walk d offset (walkSchema sch) (initial sch) = Inr fin"
    and r: "concat (map rows blocks) = emitted (initial sch) fin"
    by (rule schemaToArray_rows)
  from b e have "e \<in> set (concat (map rows blocks))" by auto
  with r have "e \<in> set (emitted (initial sch) fin)" by simp
  from walk_row [OF w this] show "0 \<le> depth e" by simp
next
  assume "walk d offset vs st = Inr st'" and "sorted_wrt (<) (map state_depth vs)"
  then show "sorted (map depth (emitted st st'))"
  proof (induction vs arbitrary: st)
    case Nil
    then show ?case by (simp add: emitted_def)
  next
    case (Cons v vs)
    then obtain st1 where cb: "callback d offset v st = Inr st1"
      and wk: "walk d offset vs st1 = Inr st'"
      by (auto split: sum.splits)
    from Cons.prems(2) have srt: "sorted_wrt (<) (map state_depth vs)"
      and lt: "\<forall>w\<in>set vs. state_depth v < state_depth w"
      by auto
    have parts: "emitted st st' = emitted st st1 @ emitted st1 st'"
      by (rule walk_Cons_emitted [OF cb wk])
    from callback_emitted_cases [OF cb]
    consider (none) "emitted st st1 = []"
      | (one) e where "emitted st st1 = [e]" "depth e = max (oDepth st1 + offset) 0"
          "iDepth st1 = state_depth v"
      by auto
    then show ?case
    proof cases
      case none
      with parts Cons.IH [OF wk srt] show ?thesis by simp
    next
      case (one e)
      from one(3) lt have "\<forall>w\<in>set vs. iDepth st1 \<le> state_depth w"
        by (auto simp: less_imp_le)
      from walk_nesting_from [OF wk srt this] one(1,2) parts
      show ?thesis by fastforce
    qed
  qed
qed

theorem depth_invariant_witness:
  "schemaToArray (\<lambda>sch. owner_visits) (Some owner_schema) (- 2) example_data
     = Inr [owner_block\<lparr>rows := [pet_row\<lparr>depth := 0\<rparr>, id_row\<lparr>depth := 0\<rparr>,
                                  name_row\<lparr>depth := 0\<rparr>]\<rparr>] \<and>
   list_all (\<lambda>e. 0 \<le> depth e) [pet_row\<lparr>depth := 0\<rparr>, id_row\<lparr>depth := 0\<rparr>, name_row\<lparr>depth := 0\<rparr>] \<and>
   walk example_data 0 [owner_visit, pet_visit, id_visit] (initial (Some owner_schema))
     = Inr \<lparr>iDepth = 2, oDepth = 2, blockDepth = 0, skipDepth = - 1, previous = [],
            block = owner_block\<lparr>rows := [pet_row, id_row]\<rparr>\<rparr> \<and>
   sorted_wrt (<) (map state_depth [owner_visit, pet_visit, id_visit]) \<and>
   emitted (initial (Some owner_schema))
     \<lparr>iDepth = 2, oDepth = 2, blockDepth = 0, skipDepth = - 1, previous = [],
      block = owner_block\<lparr>rows := [pet_row, id_row]\<rparr>\<rparr> = [pet_row, id_row] \<and>
   sorted (map depth [pet_row, id_row])"
proof -
  let ?rows = "[pet_row\<lparr>depth := 0\<rparr>, id_row\<lparr>depth := 0\<rparr>, name_row\<lparr>depth := 0\<rparr>]"
  let ?st = "\<lparr>iDepth = 2, oDepth = 2, blockDepth = 0, skipDepth = - 1, previous = [],
              block = owner_block\<lparr>rows := [pet_row, id_row]\<rparr>\<rparr>"
  have nesting: "sorted_wrt (<) (map state_depth [owner_visit, pet_visit, id_visit])"
    by (simp add: owner_visit_def pet_visit_def id_visit_def)
  have "all_rows ?st = [pet_row, id_row]"
    by (simp add: all_rows_def container_def)
  then have rows: "emitted (initial (Some owner_schema)) ?st = [pet_row, id_row]"
    by (simp add: emitted_def all_rows_initial)
  from depth_invariant
         [where walkSchema = "\<lambda>sch. owner_visits" and sch = "Some owner_schema"
            and offset = "- 2" and d = example_data and blocks = "[owner_block\<lparr>rows := ?rows\<rparr>]"
            and vs = "[]" and st = "initial None" and st' = "initial None"]
       flatten_owner_negative_offset
  have "\<forall>e\<in>set ?rows. 0 \<le> depth e" by simp
  then have nonneg: "list_all (\<lambda>e. 0 \<le> depth e) ?rows"
    by (simp add: list_all_iff)
  from depth_invariant
         [where walkSchema = "\<lambda>sch. owner_visits" and sch = "Some owner_schema"
            and offset = 0 and d = example_data and blocks = "[owner_block]"
            and vs = "[owner_visit, pet_visit, id_visit]"
            and st = "initial (Some owner_schema)" and st' = ?st]
       walk_owner_nesting nesting rows
  have "sorted (map depth [pet_row, id_row])" by simp
  with flatten_owner_negative_offset nonneg walk_owner_nesting nesting rows
  show ?thesis by blast
qed

subsection \<open>The top-level object\<close>

text \<open>
  C10. A top-level node (\<open>state.top\<close> set) whose row type is \<open>object\<close>, given or
  inferred, produces no row of its own, whatever name was derived for it: the test
  before the push is on \<open>state.top\<close> and the type, not on the name.
\<close>

theorem top_object_no_row:
  assumes "state_top v" and "callback d offset v st = Inr st'"
    and "\<not> truthy (get (schema v) ''$ref'')"
    and "get (schema v) ''type'' = Some (JStr ''object'') \<or>
         (get (schema v) ''type'' = None \<and> inferType (schema v) = Inr (JStr ''object''))"
  shows "emitted st st' = []"
proof -
  from assms(2) obtain st1 nm tp e skip where
    eb: "enter_block d v st = Inr st1" and
    dn: "derive_name d v = (nm, tp)" and
    me: "make_entry d offset v nm (if truthy nm then track_depth (state_depth v) st1 else st1)
           = Inr (e, skip)" and
    st': "st' = (if (\<not> tp \<or> type e \<noteq> Some (JStr ''object'')) \<and> truthy (name e)
                 then push e else id)
             ((if truthy nm then track_depth (state_depth v) st1 else st1)\<lparr>skipDepth := skip\<rparr>)"
    by (rule callback_Inr)
  define st2 where "st2 = (if truthy nm then track_depth (state_depth v) st1 else st1)"
  have rows2: "all_rows st2 = all_rows st"
    using enter_block_rows [OF eb] by (simp add: st2_def)
  from dn have "tp = forced_top v (titled_name d v)"
    by (simp add: derive_name_def Let_def)
  with assms(1,4) have tp: tp
    using forced_top_object [of v "titled_name d v"] by auto
  from me [folded st2_def] obtain rf ty skip0 described ty' where
    refs: "references d (schema v) (max (oDepth st2 + offset) 0) (skipDepth st2)
             = Inr (rf, ty, skip0, described)" and
    fin: "(case ty of None \<Rightarrow> inferType (schema v) | Some t \<Rightarrow> Inr t) = Inr ty'" and
    tye: "type e = Some ty'"
    by (rule make_entry_Inr) simp
  from references_type [OF refs assms(3)] have "ty = get (schema v) ''type''" .
  with fin assms(4) have "ty' = JStr ''object''" by auto
  with tye tp st' have "st' = st2\<lparr>skipDepth := skip\<rparr>"
    by (simp add: st2_def)
  with rows2 have "all_rows st' = all_rows st @ []" by simp
  then show ?thesis by (rule emitted_append)
qed

theorem top_object_no_row_witness:
  "state_top owner_visit \<and>
   callback example_data 0 owner_visit (initial (Some owner_schema))
     = Inr (initial (Some owner_schema)) \<and>
   \<not> truthy (get (schema owner_visit) ''$ref'') \<and>
   get (schema owner_visit) ''type'' = Some (JStr ''object'') \<and>
   fst (derive_name example_data owner_visit) = Some (JStr ''Owner'') \<and>
   emitted (initial (Some owner_schema)) (initial (Some owner_schema)) = []"
proof -
  have top: "state_top owner_visit" by (simp add: owner_visit_def)
  have live: "\<not> truthy (get (schema owner_visit) ''$ref'')"
    by (simp add: owner_visit_def owner_schema_def)
  have ty: "get (schema owner_visit) ''type'' = Some (JStr ''object'')"
    by (simp add: owner_visit_def owner_schema_def)
  have nm: "fst (derive_name example_data owner_visit) = Some (JStr ''Owner'')"
    by (simp add: owner_visit_def owner_schema_def derive_name_def titled_name_def
          initial_name_def forced_top_def Let_def)
  from top_object_no_row [OF top callback_owner live] ty
  have "emitted (initial (Some owner_schema)) (initial (Some owner_schema)) = []" by blast
  with top callback_owner live ty nm show ?thesis by blast
qed

subsection \<open>Block titles\<close>




subsection \<open>Shallow schemas\<close>

lemma references_skip:
  "references d sch dep skip = Inr (rf, ty, skip', described) \<Longrightarrow> skip' = skip \<or> skip' = dep"
  by (auto simp: references_def reference_def split: sum.splits option.splits prod.splits if_splits)

text \<open>
  With \<open>shallowSchemas\<close> set, a node that carries the marker or a live \<open>$ref\<close> sets
  \<open>skipDepth\<close> to its own depth and is then blanked by the test
  \<open>entry.depth >= skipDepth\<close> of the same call: it never gets a row.
\<close>

lemma shallow_reference_dropped:
  assumes "callback d offset v st = Inr st'" and "shallowSchemas d"
    and "truthy (get (schema v) ''x-widdershins-oldRef'') \<or> truthy (get (schema v) ''$ref'')"
  shows "emitted st st' = []"
proof -
  from assms(1) obtain st1 nm tp e skip where
    eb: "enter_block d v st = Inr st1" and
    me: "make_entry d offset v nm (if truthy nm then track_depth (state_depth v) st1 else st1)
           = Inr (e, skip)" and
    st': "st' = (if (\<not> tp \<or> type e \<noteq> Some (JStr ''object'')) \<and> truthy (name e)
                 then push e else id)
             ((if truthy nm then track_depth (state_depth v) st1 else st1)\<lparr>skipDepth := skip\<rparr>)"
    by (rule callback_Inr)
  define st2 where "st2 = (if truthy nm then track_depth (state_depth v) st1 else st1)"
  have rows2: "all_rows st2 = all_rows st"
    using enter_block_rows [OF eb] by (simp add: st2_def)
  from me [folded st2_def] obtain rf ty skip0 described where
    refs: "references d (schema v) (max (oDepth st2 + offset) 0) (skipDepth st2)
             = Inr (rf, ty, skip0, described)" and
    nme: "name e = (if 0 \<le> skip0 \<and> skip0 \<le> max (oDepth st2 + offset) 0 then Some (JStr [])
                    else blank_marker nm)"
    by (rule make_entry_Inr) simp
  from references_shallow [OF refs assms(2,3)] nme have "name e = Some (JStr [])" by simp
  with st' have "st' = st2\<lparr>skipDepth := skip\<rparr>"
    by (simp add: st2_def)
  with rows2 have "all_rows st' = all_rows st @ []" by simp
  then show ?thesis by (rule emitted_append)
qed

text \<open>
  While \<open>skipDepth\<close> is set, a call emits a row only at a smaller depth, and that call
  clears \<open>skipDepth\<close>.
\<close>

lemma shallow_window:
  assumes "callback d offset v st = Inr st'" and "0 \<le> skipDepth st"
    and "e \<in> set (emitted st st')"
  shows "depth e < skipDepth st \<and> skipDepth st' = - 1"
proof -
  from assms(1) obtain st1 nm tp e' skip where
    eb: "enter_block d v st = Inr st1" and
    me: "make_entry d offset v nm (if truthy nm then track_depth (state_depth v) st1 else st1)
           = Inr (e', skip)" and
    st': "st' = (if (\<not> tp \<or> type e' \<noteq> Some (JStr ''object'')) \<and> truthy (name e')
                 then push e' else id)
             ((if truthy nm then track_depth (state_depth v) st1 else st1)\<lparr>skipDepth := skip\<rparr>)"
    by (rule callback_Inr)
  define st2 where "st2 = (if truthy nm then track_depth (state_depth v) st1 else st1)"
  have rows2: "all_rows st2 = all_rows st"
    using enter_block_rows [OF eb] by (simp add: st2_def)
  have skip2: "skipDepth st2 = skipDepth st"
    using enter_block_depths [OF eb] by (simp add: st2_def)
  note st'' = st' [folded st2_def]
  have pushed: "(\<not> tp \<or> type e' \<noteq> Some (JStr ''object'')) \<and> truthy (name e')"
  proof (rule ccontr)
    assume "\<not> ?thesis"
    with st'' have "st' = st2\<lparr>skipDepth := skip\<rparr>" by auto
    with rows2 have "all_rows st' = all_rows st @ []" by simp
    then have "emitted st st' = []" by (rule emitted_append)
    with assms(3) show False by simp
  qed
  with st'' have eq: "st' = push e' (st2\<lparr>skipDepth := skip\<rparr>)" by auto
  with rows2 have "all_rows st' = all_rows st @ [e']" by simp
  then have "emitted st st' = [e']" by (rule emitted_append)
  with assms(3) have e: "e = e'" by simp
  from me [folded st2_def] obtain rf ty skip0 described where
    refs: "references d (schema v) (max (oDepth st2 + offset) 0) (skipDepth st2)
             = Inr (rf, ty, skip0, described)" and
    nme: "name e' = (if 0 \<le> skip0 \<and> skip0 \<le> max (oDepth st2 + offset) 0 then Some (JStr [])
                     else blank_marker nm)" and
    dpe: "depth e' = max (oDepth st2 + offset) 0" and
    skp: "skip = (if max (oDepth st2 + offset) 0 < skip0 then - 1 else skip0)"
    by (rule make_entry_Inr) simp
  from pushed nme have open_window: "\<not> (0 \<le> skip0 \<and> skip0 \<le> max (oDepth st2 + offset) 0)"
    by (auto split: if_splits)
  from references_skip [OF refs] skip2 open_window assms(2)
  have "skip0 = skipDepth st" by auto
  with open_window assms(2) dpe skp e eq show ?thesis by auto
qed

text \<open>
  C4. With \<open>shallowSchemas\<close> set, the row of the reference itself should remain and
  only what lies below it should go. In the owner example the pet is a resolved
  reference: with the option set no row at all is returned, neither the pet's own nor
  that of the sibling \<open>name\<close> after it; with the option off all three rows are there.
\<close>

theorem shallow_drops_reference_row:
  "schemaToArray (\<lambda>sch. owner_visits) (Some owner_schema) 0
     (example_data\<lparr>shallowSchemas := True\<rparr>) = Inr [owner_block\<lparr>rows := []\<rparr>] \<and>
   schemaToArray (\<lambda>sch. owner_visits) (Some owner_schema) 0 example_data = Inr [owner_block]"
  by (simp add: example_defs flatten_defs Let_def)

end
